theory Spec2Isabelle
  imports Complex_Main "HOL-Library.Char_ord" "HOL-Library.List_Lexorder"
begin

section \<open>The telemetry pipeline of main.py\<close>

text \<open>
  The script reads a tab-separated log of (time, channel, value) records with pandas,
  pivots it into a table indexed by time with one column per channel, optionally fills
  gaps, renames the columns to \<open>Channel_\<close> followed by the channel number, derives
  \<open>Channel_7\<close> as \<open>Channel_5 - Channel_4\<close> and looks for the first times at which
  two threshold conditions hold.

  The pandas calls are library code; they are modelled here by what pandas documents
  for them, on the data this script gives them:
  \<^item> a cell is a value or NaN (\<open>None\<close>), and the value column, like every column
    \<open>read_csv\<close> returns, has one type for the whole column. In the pipeline on a
    numeric column a value is a rational number (\<open>cell\<close>): a finite number, with
    exact arithmetic. The subtraction of line 32 is also given on all the numbers of a
    numeric column (\<open>number\<close>: finite or an infinity) with the rounding of the
    column's number type as a parameter, and the pipeline is also given on a value column
    that \<open>read_csv\<close> kept as text because some field is not a number;
  \<^item> the time column has one type for the whole column, as \<open>read_csv\<close> infers it:
    numbers (\<open>rat\<close>) or, when some field is not a number, text (\<open>string\<close>); the
    model is polymorphic in it and asks only for the order pandas sorts by;
  \<^item> channel identifiers are integers;
  \<^item> an exception is a value of type \<open>error\<close>, returned in \<open>Inl\<close>.
\<close>

subsection \<open>Data\<close>

type_synonym cell = "rat option"

record ('t, 'v) raw_record =
  time :: 't
  channel :: int
  val :: "'v option"

text \<open>
  What \<open>pd.read_csv(file_path, sep='\t')\<close> returns: the names of the header row and
  the data rows. A row gives the fields under the headers \<open>time\<close>, \<open>channel\<close> and
  \<open>value\<close>; when the header lacks one of them the field is never read, since the
  pivot looks the column up by name first.
\<close>

record ('t, 'v) frame =
  columns :: "string list"
  rows :: "('t, 'v) raw_record list"

text \<open>
  A pivoted table: the index (the times, ascending) and the columns in order, each a
  label with one cell per index entry.
\<close>

record ('t, 'l, 'v) table =
  index :: "'t list"
  cols :: "('l \<times> 'v option list) list"

datatype error = FileNotFoundError | KeyError | ValueError | TypeError

type_synonym ('t, 'v) files = "string \<Rightarrow> ('t, 'v) frame option"

subsection \<open>pandas operations\<close>

definition read_csv :: "('t, 'v) files \<Rightarrow> string \<Rightarrow> error + ('t, 'v) frame" where
  "read_csv fs file_path =
     (case fs file_path of None \<Rightarrow> Inl FileNotFoundError | Some df \<Rightarrow> Inr df)"

definition lookup_value :: "('t, 'v) raw_record list \<Rightarrow> 't \<Rightarrow> int \<Rightarrow> 'v option" where
  "lookup_value rs t c =
     (case find (\<lambda>r. time r = t \<and> channel r = c) rs of None \<Rightarrow> None | Some r \<Rightarrow> val r)"

text \<open>
  \<open>df.pivot(index='time', columns='channel', values='value')\<close>: a KeyError when a
  named column is not in the frame; a ValueError (\<open>Index contains duplicate entries,
  cannot reshape\<close>) when two rows share time and channel; otherwise the table over the
  sorted distinct times and the sorted distinct channels, NaN where no row gives a value.
\<close>

definition pivot :: "('t::linorder, 'v) frame \<Rightarrow> error + ('t, int, 'v) table" where
  "pivot df =
     (if ''time'' \<notin> set (columns df) \<or> ''channel'' \<notin> set (columns df)
         \<or> ''value'' \<notin> set (columns df) then Inl KeyError
      else if \<not> distinct (map (\<lambda>r. (time r, channel r)) (rows df)) then Inl ValueError
      else let idx = sort (remdups (map time (rows df)));
               chs = sort (remdups (map channel (rows df)))
           in Inr \<lparr>index = idx,
                   cols = map (\<lambda>c. (c, map (\<lambda>t. lookup_value (rows df) t c) idx)) chs\<rparr>)"

text \<open>\<open>Series.ffill\<close>: each NaN takes the last value before it; leading NaNs stay.\<close>

fun ffill_from :: "'v option \<Rightarrow> 'v option list \<Rightarrow> 'v option list" where
  "ffill_from prev [] = []"
| "ffill_from prev (None # xs) = prev # ffill_from prev xs"
| "ffill_from prev (Some v # xs) = Some v # ffill_from (Some v) xs"

definition ffill :: "'v option list \<Rightarrow> 'v option list" where
  "ffill xs = ffill_from None xs"

text \<open>\<open>Series.bfill\<close>: each NaN takes the next value after it; trailing NaNs stay.\<close>

definition bfill :: "'v option list \<Rightarrow> 'v option list" where
  "bfill xs = rev (ffill_from None (rev xs))"

text \<open>
  \<open>Series.interpolate(method='linear')\<close> with the defaults
  (\<open>limit_direction='forward'\<close>, no \<open>limit_area\<close>): the index is ignored and the rows
  count as equally spaced. \<open>interpolate_from v k xs\<close> has seen the value \<open>v\<close> and then
  \<open>k\<close> NaNs; at the next value \<open>w\<close> the \<open>k\<close> NaNs become the points of the line from
  \<open>v\<close> to \<open>w\<close>; at the end of the column they become \<open>v\<close>. NaNs before the first
  value stay.
\<close>

fun interpolate_from :: "rat \<Rightarrow> nat \<Rightarrow> cell list \<Rightarrow> cell list" where
  "interpolate_from v k [] = replicate k (Some v)"
| "interpolate_from v k (None # xs) = interpolate_from v (Suc k) xs"
| "interpolate_from v k (Some w # xs) =
     map (\<lambda>j. Some (v + (w - v) * of_nat j / of_nat (Suc k))) [1..<Suc k]
       @ Some w # interpolate_from w 0 xs"

fun interpolate :: "cell list \<Rightarrow> cell list" where
  "interpolate [] = []"
| "interpolate (None # xs) = None # interpolate xs"
| "interpolate (Some v # xs) = Some v # interpolate_from v 0 xs"


definition map_columns ::
  "('v option list \<Rightarrow> 'v option list) \<Rightarrow> ('t, 'l, 'v) table \<Rightarrow> ('t, 'l, 'v) table" where
  "map_columns f tb = tb\<lparr>cols := map (\<lambda>(l, vs). (l, f vs)) (cols tb)\<rparr>"

text \<open>\<open>df[name]\<close>: the column, or a KeyError.\<close>

definition getitem :: "('t, 'l, 'v) table \<Rightarrow> 'l \<Rightarrow> error + 'v option list" where
  "getitem tb l = (case map_of (cols tb) l of None \<Rightarrow> Inl KeyError | Some vs \<Rightarrow> Inr vs)"

text \<open>\<open>df.loc[t, l]\<close>: the cell of the row labelled \<open>t\<close> in column \<open>l\<close>, if both exist.\<close>

definition loc :: "('t, 'l, 'v) table \<Rightarrow> 't \<Rightarrow> 'l \<Rightarrow> 'v option option" where
  "loc tb t l = (case map_of (cols tb) l of None \<Rightarrow> None | Some vs \<Rightarrow> map_of (zip (index tb) vs) t)"

text \<open>\<open>df[name] = vs\<close>: replaces the column in place, or appends a new last column.\<close>

definition setitem ::
  "('t, 'l, 'v) table \<Rightarrow> 'l \<Rightarrow> 'v option list \<Rightarrow> ('t, 'l, 'v) table" where
  "setitem tb l vs =
     (if l \<in> set (map fst (cols tb))
      then tb\<lparr>cols := map (\<lambda>(k, ws). if k = l then (k, vs) else (k, ws)) (cols tb)\<rparr>
      else tb\<lparr>cols := cols tb @ [(l, vs)]\<rparr>)"

text \<open>
  Subtraction and comparison of finite numbers in the pipeline: NaN in, NaN out; a
  comparison with NaN is false.
\<close>

fun sub :: "cell \<Rightarrow> cell \<Rightarrow> cell" where
  "sub (Some a) (Some b) = Some (a - b)"
| "sub _ _ = None"

fun lt :: "cell \<Rightarrow> rat \<Rightarrow> bool" where
  "lt (Some a) c = (a < c)"
| "lt None c = False"

text \<open>
  The same subtraction on all the numbers a numeric column can hold. A float64 column
  holds finite numbers and the two infinities (\<open>read_csv\<close> reads the fields \<open>inf\<close> and
  \<open>-inf\<close>); an int64 column (a log of integers without a gap) holds finite numbers
  only. \<open>rnd\<close> is the rounding of the column's number type: what the type stores for
  the exact difference of two of its finite numbers. float64 rounds to the nearest float
  and overflows to an infinity, int64 wraps around; neither gives NaN. The infinities
  follow IEEE 754: an infinity minus itself is NaN. \<open>sub\<close> is this subtraction on
  finite numbers whose difference the type stores exactly.
\<close>

datatype number = Fin rat | PInf | NInf

fun np_sub :: "(rat \<Rightarrow> number) \<Rightarrow> number option \<Rightarrow> number option \<Rightarrow> number option" where
  "np_sub rnd (Some (Fin a)) (Some (Fin b)) = Some (rnd (a - b))"
| "np_sub rnd (Some (Fin a)) (Some PInf) = Some NInf"
| "np_sub rnd (Some (Fin a)) (Some NInf) = Some PInf"
| "np_sub rnd (Some PInf) (Some PInf) = None"
| "np_sub rnd (Some PInf) (Some b) = Some PInf"
| "np_sub rnd (Some NInf) (Some NInf) = None"
| "np_sub rnd (Some NInf) (Some b) = Some NInf"
| "np_sub rnd a b = None"

text \<open>The rounding of int64: the integer modulo \<open>2^64\<close>, between \<open>-2^63\<close> and \<open>2^63 - 1\<close>.\<close>

definition int64 :: "rat \<Rightarrow> number" where
  "int64 x = Fin (of_int ((\<lfloor>x\<rfloor> + 2 ^ 63) mod 2 ^ 64 - 2 ^ 63))"

text \<open>
  Arithmetic on a text column (dtype object): pandas subtracts row by row where both
  cells are present, and the difference of two strings raises a TypeError; a row with a
  missing cell gives NaN.
\<close>

definition sub_object :: "string option list \<Rightarrow> string option list \<Rightarrow> error + string option list" where
  "sub_object c5 c4 =
     (if list_ex (\<lambda>(a, b). a \<noteq> None \<and> b \<noteq> None) (zip c5 c4) then Inl TypeError
      else Inr (map2 (\<lambda>a b. None) c5 c4))"

text \<open>\<open>Index.min()\<close>: NaN (\<open>None\<close>) for an empty index.\<close>

fun index_min :: "('t::linorder) list \<Rightarrow> 't option" where
  "index_min [] = None"
| "index_min (t # ts) = Some (fold min ts t)"

text \<open>\<open>df[mask].index\<close>: the index entries of the rows where the mask is true.\<close>

definition select_index :: "'t list \<Rightarrow> bool list \<Rightarrow> 't list" where
  "select_index idx keep = map fst (filter snd (zip idx keep))"

subsection \<open>Formatting an integer\<close>

definition digit_char :: "nat \<Rightarrow> char" where
  "digit_char d = char_of (48 + d)"

function str_nat :: "nat \<Rightarrow> string" where
  "str_nat n = (if n < 10 then [digit_char n] else str_nat (n div 10) @ [digit_char (n mod 10)])"
  by pat_completeness auto
termination
  by (relation "measure (\<lambda>n. n)") auto

declare str_nat.simps [simp del]

definition str_int :: "int \<Rightarrow> string" where
  "str_int i = (if i < 0 then CHR ''-'' # str_nat (nat (- i)) else str_nat (nat i))"

subsection \<open>load_and_process_data\<close>

definition fill_missing_values ::
  "bool \<Rightarrow> string \<Rightarrow> ('t, 'l, rat) table \<Rightarrow> ('t, 'l, rat) table" where
  "fill_missing_values fill_missing fill_method df_pivot =
     (if fill_missing then
        (if fill_method = ''interpolate'' then map_columns interpolate df_pivot
         else if fill_method = ''ffill'' then map_columns ffill df_pivot
         else if fill_method = ''bfill'' then map_columns bfill df_pivot
         else df_pivot)
      else df_pivot)"

definition column_name :: "int \<Rightarrow> string" where
  "column_name col = ''Channel_'' @ str_int col"

definition rename_columns :: "('t, int, 'v) table \<Rightarrow> ('t, string, 'v) table" where
  "rename_columns df_pivot =
     \<lparr>index = index df_pivot, cols = map (\<lambda>(col, vs). (column_name col, vs)) (cols df_pivot)\<rparr>"

definition derive_channel_7 ::
  "('t, string, rat) table \<Rightarrow> error + ('t, string, rat) table" where
  "derive_channel_7 df_pivot =
     (case getitem df_pivot ''Channel_5'' of Inl e \<Rightarrow> Inl e | Inr c5 \<Rightarrow>
      (case getitem df_pivot ''Channel_4'' of Inl e \<Rightarrow> Inl e | Inr c4 \<Rightarrow>
         Inr (setitem df_pivot ''Channel_7'' (map2 sub c5 c4))))"

text \<open>Lines 14 to 29: the table before the derivation.\<close>

definition reshape ::
  "('t::linorder, rat) files \<Rightarrow> string \<Rightarrow> bool \<Rightarrow> string
     \<Rightarrow> error + ('t, string, rat) table" where
  "reshape fs file_path fill_missing fill_method =
     (case read_csv fs file_path of Inl e \<Rightarrow> Inl e | Inr df \<Rightarrow>
      (case pivot df of Inl e \<Rightarrow> Inl e | Inr df_pivot \<Rightarrow>
         Inr (rename_columns (fill_missing_values fill_missing fill_method df_pivot))))"

definition load_and_process_data ::
  "('t::linorder, rat) files \<Rightarrow> string \<Rightarrow> bool \<Rightarrow> string
     \<Rightarrow> error + ('t, string, rat) table" where
  "load_and_process_data fs file_path fill_missing fill_method =
     (case reshape fs file_path fill_missing fill_method of Inl e \<Rightarrow> Inl e
      | Inr df_pivot \<Rightarrow> derive_channel_7 df_pivot)"

text \<open>Line 32 on a numeric column with all its numbers and the rounding of its type.\<close>

definition derive_channel_7_np ::
  "(rat \<Rightarrow> number) \<Rightarrow> ('t, string, number) table \<Rightarrow> error + ('t, string, number) table" where
  "derive_channel_7_np rnd df_pivot =
     (case getitem df_pivot ''Channel_5'' of Inl e \<Rightarrow> Inl e | Inr c5 \<Rightarrow>
      (case getitem df_pivot ''Channel_4'' of Inl e \<Rightarrow> Inl e | Inr c4 \<Rightarrow>
         Inr (setitem df_pivot ''Channel_7'' (map2 (np_sub rnd) c5 c4))))"

text \<open>
  The same function on a log whose value column is text. \<open>DataFrame.interpolate\<close>
  raises a TypeError on a frame whose columns are all of dtype object; \<open>ffill\<close> and
  \<open>bfill\<close> fill text as they fill numbers; line 32 subtracts text.
\<close>

definition fill_missing_values_object ::
  "bool \<Rightarrow> string \<Rightarrow> ('t, 'l, string) table \<Rightarrow> error + ('t, 'l, string) table" where
  "fill_missing_values_object fill_missing fill_method df_pivot =
     (if fill_missing then
        (if fill_method = ''interpolate'' then Inl TypeError
         else if fill_method = ''ffill'' then Inr (map_columns ffill df_pivot)
         else if fill_method = ''bfill'' then Inr (map_columns bfill df_pivot)
         else Inr df_pivot)
      else Inr df_pivot)"

definition derive_channel_7_object ::
  "('t, string, string) table \<Rightarrow> error + ('t, string, string) table" where
  "derive_channel_7_object df_pivot =
     (case getitem df_pivot ''Channel_5'' of Inl e \<Rightarrow> Inl e | Inr c5 \<Rightarrow>
      (case getitem df_pivot ''Channel_4'' of Inl e \<Rightarrow> Inl e | Inr c4 \<Rightarrow>
      (case sub_object c5 c4 of Inl e \<Rightarrow> Inl e | Inr c7 \<Rightarrow>
         Inr (setitem df_pivot ''Channel_7'' c7))))"

definition load_and_process_data_object ::
  "('t::linorder, string) files \<Rightarrow> string \<Rightarrow> bool \<Rightarrow> string
     \<Rightarrow> error + ('t, string, string) table" where
  "load_and_process_data_object fs file_path fill_missing fill_method =
     (case read_csv fs file_path of Inl e \<Rightarrow> Inl e | Inr df \<Rightarrow>
      (case pivot df of Inl e \<Rightarrow> Inl e | Inr df_pivot \<Rightarrow>
      (case fill_missing_values_object fill_missing fill_method df_pivot of Inl e \<Rightarrow> Inl e
       | Inr filled \<Rightarrow> derive_channel_7_object (rename_columns filled))))"

subsection \<open>find_first_conditions\<close>

definition find_first_conditions ::
  "('t::linorder, string, rat) table \<Rightarrow> error + ('t option \<times> 't option \<times> 't option)" where
  "find_first_conditions df =
     (case getitem df ''Channel_2'' of Inl e \<Rightarrow> Inl e | Inr c2 \<Rightarrow>
      (case getitem df ''Channel_7'' of Inl e \<Rightarrow> Inl e | Inr c7 \<Rightarrow>
         (let condition_1 = map (\<lambda>v. lt v (- 1 / 2)) c2;
              condition_2 = map (\<lambda>v. lt v 0) c7;
              both_conditions = map2 (\<and>) condition_1 condition_2
          in Inr (index_min (select_index (index df) condition_1),
                  index_min (select_index (index df) condition_2),
                  index_min (select_index (index df) both_conditions)))))"

text \<open>
  The evaluator's contract in the spec's words: a predicate on a column holds in row \<open>i\<close>
  when the cell is present and below the threshold, and the first time of a predicate
  over the rows is the least index entry of a row where it holds, or \<open>None\<close> (the NaN
  sentinel) when it holds in no row.
\<close>

definition below :: "cell list \<Rightarrow> rat \<Rightarrow> nat \<Rightarrow> bool" where
  "below col c i \<longleftrightarrow> (\<exists>x. col ! i = Some x \<and> x < c)"

definition first_time :: "('t::linorder) list \<Rightarrow> (nat \<Rightarrow> bool) \<Rightarrow> 't option" where
  "first_time idx P =
     (if \<forall>i < length idx. \<not> P i then None
      else Some (Min {idx ! i |i. i < length idx \<and> P i}))"

subsection \<open>The script\<close>

text \<open>
  The command line as argparse returns it: \<open>args.input\<close>, \<open>args.fill\<close> and
  \<open>args.method\<close>; an option that is not given is \<open>None\<close>.
\<close>

record args =
  arg_input :: "string option"
  arg_fill :: bool
  arg_method :: "string option"

text \<open>
  What a run does, in order: the call of the loader, the two prints and the call of
  the plotting routine (which is not modelled further).
\<close>

datatype 't event =
    Load string
  | PrintHead "('t, string, rat) table"
  | PrintConditions "'t option" "'t option" "'t option"
  | Plot string

definition head :: "('t, 'l, 'v) table \<Rightarrow> ('t, 'l, 'v) table" where
  "head tb = \<lparr>index = take 5 (index tb), cols = map (\<lambda>(l, vs). (l, take 5 vs)) (cols tb)\<rparr>"

text \<open>Python's truth value of an optional string: given and not empty.\<close>

fun truthy :: "string option \<Rightarrow> bool" where
  "truthy None = False"
| "truthy (Some s) = (s \<noteq> [])"

text \<open>Lines 143 to 157: the part of the script after the command line is read.\<close>

definition run ::
  "('t::linorder, rat) files \<Rightarrow> string \<Rightarrow> bool \<Rightarrow> string
     \<Rightarrow> 't event list \<times> error option" where
  "run fs file_path fill_missing fill_method =
     (case load_and_process_data fs file_path fill_missing fill_method of
        Inl e \<Rightarrow> ([Load file_path], Some e)
      | Inr practice_df \<Rightarrow>
         (case find_first_conditions practice_df of
            Inl e \<Rightarrow> ([Load file_path, PrintHead (head practice_df)], Some e)
          | Inr (c1, c2, c3) \<Rightarrow>
              ([Load file_path, PrintHead (head practice_df), PrintConditions c1 c2 c3,
                Plot file_path], None)))"

definition main :: "('t::linorder, rat) files \<Rightarrow> args \<Rightarrow> 't event list \<times> error option" where
  "main fs a =
     (let file_path = (if truthy (arg_input a) then the (arg_input a) else []);
          fill_missing = arg_fill a
      in if truthy (arg_method a) then
           (if the (arg_method a) \<notin> set [''interpolate'', ''ffill'', ''bfill'']
            then ([], Some ValueError)
            else run fs file_path fill_missing (the (arg_method a)))
         else run fs file_path fill_missing ''interpolate'')"

subsection \<open>Example inputs\<close>

text \<open>A log with a gap: channels 4 and 5 have no record at time 1.\<close>

definition gap_files :: "(rat, rat) files" where
  "gap_files p =
     (if p = ''data.txt''
      then Some \<lparr>columns = [''time'', ''channel'', ''value''],
                 rows = [\<lparr>time = 0, channel = 2, val = Some (- 1)\<rparr>,
                         \<lparr>time = 0, channel = 4, val = Some 1\<rparr>,
                         \<lparr>time = 0, channel = 5, val = Some 3\<rparr>,
                         \<lparr>time = 1, channel = 2, val = Some (- 1)\<rparr>]\<rparr>
      else None)"

text \<open>A log in which channel 5 never appears.\<close>

definition no_channel_5 :: "(rat, rat) files" where
  "no_channel_5 p =
     (if p = ''data.txt''
      then Some \<lparr>columns = [''time'', ''channel'', ''value''],
                 rows = [\<lparr>time = 0, channel = 2, val = Some (- 1)\<rparr>,
                         \<lparr>time = 0, channel = 4, val = Some 1\<rparr>]\<rparr>
      else None)"


text \<open>A log in which time 0 and channel 4 occur in two records.\<close>

definition duplicate_files :: "(rat, rat) files" where
  "duplicate_files p =
     (if p = ''data.txt''
      then Some \<lparr>columns = [''time'', ''channel'', ''value''],
                 rows = [\<lparr>time = 0, channel = 4, val = Some 1\<rparr>,
                         \<lparr>time = 0, channel = 5, val = Some 3\<rparr>,
                         \<lparr>time = 0, channel = 4, val = Some 2\<rparr>]\<rparr>
      else None)"

text \<open>A log whose \<open>time\<close> fields are not numbers: pandas keeps the column as text.\<close>

definition text_time_files :: "(string, rat) files" where
  "text_time_files p =
     (if p = ''data.txt''
      then Some \<lparr>columns = [''time'', ''channel'', ''value''],
                 rows = [\<lparr>time = ''abc'', channel = 4, val = Some 1\<rparr>,
                         \<lparr>time = ''abc'', channel = 5, val = Some 3\<rparr>]\<rparr>
      else None)"

text \<open>A log whose header has no \<open>value\<close> column.\<close>

definition no_value_header :: "(rat, rat) files" where
  "no_value_header p =
     (if p = ''data.txt''
      then Some \<lparr>columns = [''time'', ''channel'', ''reading''],
                 rows = [\<lparr>time = 0, channel = 4, val = Some 1\<rparr>,
                         \<lparr>time = 0, channel = 5, val = Some 3\<rparr>]\<rparr>
      else None)"

text \<open>A log in which channel 2 never appears.\<close>

definition no_channel_2 :: "(rat, rat) files" where
  "no_channel_2 p =
     (if p = ''data.txt''
      then Some \<lparr>columns = [''time'', ''channel'', ''value''],
                 rows = [\<lparr>time = 0, channel = 4, val = Some 1\<rparr>,
                         \<lparr>time = 0, channel = 5, val = Some 3\<rparr>]\<rparr>
      else None)"


text \<open>
  A log whose value column is text: channel 3 has the field \<open>abc\<close>, and the value
  fields of channels 4 and 5 are empty.
\<close>

definition text_value_files :: "(rat, string) files" where
  "text_value_files p =
     (if p = ''data.txt''
      then Some \<lparr>columns = [''time'', ''channel'', ''value''],
                 rows = [\<lparr>time = 0, channel = 3, val = Some ''abc''\<rparr>,
                         \<lparr>time = 0, channel = 4, val = None\<rparr>,
                         \<lparr>time = 0, channel = 5, val = None\<rparr>]\<rparr>
      else None)"

text \<open>A log whose value column is text, with values of channels 4 and 5 at time 0.\<close>

definition text_difference_files :: "(rat, string) files" where
  "text_difference_files p =
     (if p = ''data.txt''
      then Some \<lparr>columns = [''time'', ''channel'', ''value''],
                 rows = [\<lparr>time = 0, channel = 4, val = Some ''1.0''\<rparr>,
                         \<lparr>time = 0, channel = 5, val = Some ''abc''\<rparr>]\<rparr>
      else None)"

section \<open>Properties\<close>

subsection \<open>Columns by name\<close>

lemma getitem_Inl_iff: "getitem tb l = Inl e \<longleftrightarrow> e = KeyError \<and> l \<notin> fst ` set (cols tb)"
proof -
  have "map_of (cols tb) l = None \<longleftrightarrow> l \<notin> fst ` set (cols tb)"
    by (rule map_of_eq_None_iff)
  then show ?thesis
    by (cases "map_of (cols tb) l") (auto simp: getitem_def)
qed

lemma getitem_Inr_iff: "getitem tb l = Inr vs \<longleftrightarrow> map_of (cols tb) l = Some vs"
  by (simp add: getitem_def split: option.splits)

lemma derive_channel_7_absent:
  assumes "''Channel_4'' \<notin> fst ` set (cols tb) \<or> ''Channel_5'' \<notin> fst ` set (cols tb)"
  shows "derive_channel_7 tb = Inl KeyError"
proof (cases "getitem tb ''Channel_5''")
  case (Inl e)
  then have "e = KeyError" by (simp add: getitem_Inl_iff)
  with Inl show ?thesis by (simp add: derive_channel_7_def)
next
  case c5: (Inr c5)
  then have "''Channel_5'' \<in> fst ` set (cols tb)"
    by (metis getitem_Inl_iff sum.distinct(1) getitem_def option.case_eq_if)
  with assms have "getitem tb ''Channel_4'' = Inl KeyError"
    by (simp add: getitem_Inl_iff)
  with c5 show ?thesis by (simp add: derive_channel_7_def)
qed

subsection \<open>The command line\<close>

text \<open>
  C5, as the code has it. The fill switch comes from \<open>-f\<close> alone: a valid method is
  handed to the loader together with the switch as given, and the loader fills only when
  the switch is on. With a method and no switch the table is left as pivoted.
\<close>

theorem method_needs_fill_switch:
  assumes "arg_method a = Some m" and "m \<in> set [''interpolate'', ''ffill'', ''bfill'']"
  shows "main fs a = run fs (if truthy (arg_input a) then the (arg_input a) else []) (arg_fill a) m
    \<and> fill_missing_values (arg_fill a) m tb =
        (if arg_fill a
         then map_columns (if m = ''interpolate'' then interpolate
                           else if m = ''ffill'' then ffill else bfill) tb
         else tb)"
  using assms by (auto simp: main_def fill_missing_values_def)

theorem method_needs_fill_switch_witness:
  "main gap_files \<lparr>arg_input = Some ''data.txt'', arg_fill = True, arg_method = Some ''ffill''\<rparr>
     = run gap_files ''data.txt'' True ''ffill''
   \<and> fill_missing_values True ''ffill'' \<lparr>index = [0::rat, 1], cols = [(4::int, [Some 1, None])]\<rparr>
     = \<lparr>index = [0, 1], cols = [(4, [Some 1, Some 1])]\<rparr>"
proof -
  let ?a = "\<lparr>arg_input = Some ''data.txt'', arg_fill = True, arg_method = Some ''ffill''\<rparr>"
  have m: "arg_method ?a = Some ''ffill''" by simp
  have v: "''ffill'' \<in> set [''interpolate'', ''ffill'', ''bfill'']" by simp
  show ?thesis
    using method_needs_fill_switch [OF m v, of gap_files
        "\<lparr>index = [0::rat, 1], cols = [(4::int, [Some 1, None])]\<rparr>"]
    by (simp add: map_columns_def ffill_def)
qed

text \<open>
  C5, as the claim states it, fails: with \<open>-m ffill\<close> and no \<open>-f\<close> the gap at time 1
  is still there in the table the run prints, while with \<open>-f -m ffill\<close> it is filled.
\<close>

theorem method_without_switch_counterexample:
  "main gap_files \<lparr>arg_input = Some ''data.txt'', arg_fill = False, arg_method = Some ''ffill''\<rparr> =
     ([Load ''data.txt'',
       PrintHead \<lparr>index = [0, 1],
                  cols = [(''Channel_2'', [Some (- 1), Some (- 1)]),
                          (''Channel_4'', [Some 1, None]),
                          (''Channel_5'', [Some 3, None]),
                          (''Channel_7'', [Some 2, None])]\<rparr>,
       PrintConditions (Some 0) None None, Plot ''data.txt''], None)
   \<and> main gap_files \<lparr>arg_input = Some ''data.txt'', arg_fill = True, arg_method = Some ''ffill''\<rparr> =
     ([Load ''data.txt'',
       PrintHead \<lparr>index = [0, 1],
                  cols = [(''Channel_2'', [Some (- 1), Some (- 1)]),
                          (''Channel_4'', [Some 1, Some 1]),
                          (''Channel_5'', [Some 3, Some 3]),
                          (''Channel_7'', [Some 2, Some 2])]\<rparr>,
       PrintConditions (Some 0) None None, Plot ''data.txt''], None)"
  by code_simp

text \<open>
  C6, as the code has it. A method that is given, is not the empty string and is not
  one of the three names ends the run with a ValueError before the loader is called: the
  run has no event at all.
\<close>

theorem invalid_method_raises_before_load:
  assumes "arg_method a = Some m" and "m \<noteq> []"
    and "m \<notin> set [''interpolate'', ''ffill'', ''bfill'']"
  shows "main fs a = ([], Some ValueError)"
  using assms by (simp add: main_def)

theorem invalid_method_raises_before_load_witness:
  "main gap_files \<lparr>arg_input = Some ''data.txt'', arg_fill = True, arg_method = Some ''spline''\<rparr>
     = ([], Some ValueError)"
proof -
  let ?a = "\<lparr>arg_input = Some ''data.txt'', arg_fill = True, arg_method = Some ''spline''\<rparr>"
  have m: "arg_method ?a = Some ''spline''" by simp
  have n: "''spline'' \<noteq> []" by simp
  have v: "''spline'' \<notin> set [''interpolate'', ''ffill'', ''bfill'']" by simp
  show ?thesis
    by (rule invalid_method_raises_before_load [OF m n v])
qed

text \<open>
  C6, as the claim states it, fails at the empty string: \<open>-m ''\<close> is a method outside
  the three names, but \<open>if args.method:\<close> is false for it, so nothing is raised, the
  loader runs and \<open>interpolate\<close> stays the method.
\<close>

theorem empty_method_counterexample:
  "[] \<notin> set [''interpolate'', ''ffill'', ''bfill'']
   \<and> main gap_files \<lparr>arg_input = Some ''data.txt'', arg_fill = False, arg_method = Some []\<rparr> =
     ([Load ''data.txt'',
       PrintHead \<lparr>index = [0, 1],
                  cols = [(''Channel_2'', [Some (- 1), Some (- 1)]),
                          (''Channel_4'', [Some 1, None]),
                          (''Channel_5'', [Some 3, None]),
                          (''Channel_7'', [Some 2, None])]\<rparr>,
       PrintConditions (Some 0) None None, Plot ''data.txt''], None)"
  by code_simp

subsection \<open>The derived column\<close>

text \<open>
  C7. When the table before the derivation has no column \<open>Channel_4\<close> or no column
  \<open>Channel_5\<close>, the derivation raises a KeyError, \<open>load_and_process_data\<close> returns no
  table, and the run ends after the call of the loader: nothing is printed, no condition
  is evaluated and nothing is plotted.
\<close>

theorem missing_column_aborts:
  assumes "reshape fs file_path fill_missing fill_method = Inr tb"
    and "''Channel_4'' \<notin> fst ` set (cols tb) \<or> ''Channel_5'' \<notin> fst ` set (cols tb)"
  shows "derive_channel_7 tb = Inl KeyError
    \<and> load_and_process_data fs file_path fill_missing fill_method = Inl KeyError
    \<and> run fs file_path fill_missing fill_method = ([Load file_path], Some KeyError)"
proof -
  have d: "derive_channel_7 tb = Inl KeyError"
    using assms(2) by (rule derive_channel_7_absent)
  then have l: "load_and_process_data fs file_path fill_missing fill_method = Inl KeyError"
    by (simp add: load_and_process_data_def assms(1))
  then show ?thesis
    using d by (simp add: run_def)
qed

theorem missing_column_aborts_witness:
  "reshape no_channel_5 ''data.txt'' False ''interpolate'' =
     Inr \<lparr>index = [0], cols = [(''Channel_2'', [Some (- 1)]), (''Channel_4'', [Some 1])]\<rparr>
   \<and> ''Channel_5'' \<notin> fst ` set [(''Channel_2'', [Some (- 1 :: rat)]), (''Channel_4'', [Some 1])]
   \<and> load_and_process_data no_channel_5 ''data.txt'' False ''interpolate'' = Inl KeyError
   \<and> run no_channel_5 ''data.txt'' False ''interpolate'' = ([Load ''data.txt''], Some KeyError)"
proof -
  let ?tb = "\<lparr>index = [0::rat],
              cols = [(''Channel_2'', [Some (- 1)]), (''Channel_4'', [Some 1])]\<rparr>"
  have r: "reshape no_channel_5 ''data.txt'' False ''interpolate'' = Inr ?tb"
    by code_simp
  have a: "''Channel_4'' \<notin> fst ` set (cols ?tb) \<or> ''Channel_5'' \<notin> fst ` set (cols ?tb)"
    by simp
  from missing_column_aborts [OF r a] r show ?thesis by simp
qed

subsection \<open>Column names\<close>

lemma of_char_digit_char: "d < 10 \<Longrightarrow> of_char (digit_char d) = 48 + d"
  by (simp add: digit_char_def)

lemma digit_char_inj: "a < 10 \<Longrightarrow> b < 10 \<Longrightarrow> digit_char a = digit_char b \<Longrightarrow> a = b"
  by (metis of_char_digit_char add_left_cancel)

lemma str_nat_not_Nil: "str_nat n \<noteq> []"
  by (subst str_nat.simps) simp

lemma str_nat_chars: "c \<in> set (str_nat n) \<Longrightarrow> (48::nat) \<le> of_char c"
proof (induction n rule: str_nat.induct)
  case (1 n)
  show ?case
  proof (cases "n < 10")
    case True
    with "1.prems" have "c = digit_char n"
      by (subst (asm) str_nat.simps) simp
    with True show ?thesis by (simp add: of_char_digit_char)
  next
    case False
    with "1.prems" have "c \<in> set (str_nat (n div 10)) \<or> c = digit_char (n mod 10)"
      by (subst (asm) str_nat.simps) auto
    then show ?thesis
    proof
      assume "c \<in> set (str_nat (n div 10))"
      with False "1.IH" show ?thesis by simp
    next
      assume "c = digit_char (n mod 10)"
      then show ?thesis by (simp add: of_char_digit_char)
    qed
  qed
qed

lemma str_nat_inj: "str_nat m = str_nat n \<Longrightarrow> m = n"
proof (induction m arbitrary: n rule: str_nat.induct)
  case (1 m)
  show ?case
  proof (cases "m < 10")
    case m: True
    then have sm: "str_nat m = [digit_char m]"
      by (subst str_nat.simps) simp
    show ?thesis
    proof (cases "n < 10")
      case True
      then have "str_nat n = [digit_char n]"
        by (subst str_nat.simps) simp
      with sm "1.prems" m True show ?thesis
        by (simp add: digit_char_inj)
    next
      case False
      then have "str_nat n = str_nat (n div 10) @ [digit_char (n mod 10)]"
        by (subst str_nat.simps) simp
      with sm "1.prems" have "str_nat (n div 10) = []"
        by (metis append1_eq_conv append_Nil)
      then show ?thesis by (simp add: str_nat_not_Nil)
    qed
  next
    case m: False
    then have sm: "str_nat m = str_nat (m div 10) @ [digit_char (m mod 10)]"
      by (subst str_nat.simps) simp
    show ?thesis
    proof (cases "n < 10")
      case True
      then have "str_nat n = [digit_char n]"
        by (subst str_nat.simps) simp
      with sm "1.prems" have "str_nat (m div 10) = []"
        by (metis append1_eq_conv append_Nil)
      then show ?thesis by (simp add: str_nat_not_Nil)
    next
      case False
      then have "str_nat n = str_nat (n div 10) @ [digit_char (n mod 10)]"
        by (subst str_nat.simps) simp
      with sm "1.prems" have e: "str_nat (m div 10) = str_nat (n div 10)"
        and d: "digit_char (m mod 10) = digit_char (n mod 10)"
        by simp_all
      from e m "1.IH" have "m div 10 = n div 10" by simp
      moreover from d have "m mod 10 = n mod 10"
        by (simp add: digit_char_inj)
      ultimately show ?thesis
        by (metis div_mult_mod_eq)
    qed
  qed
qed

lemma str_int_inj: "str_int i = str_int j \<Longrightarrow> i = j"
proof -
  have minus: "CHR ''-'' # s \<noteq> str_nat n" for s n
  proof
    assume "CHR ''-'' # s = str_nat n"
    then have "CHR ''-'' \<in> set (str_nat n)"
      by (metis list.set_intros(1))
    then have "(48::nat) \<le> of_char CHR ''-''" by (rule str_nat_chars)
    then show False by simp
  qed
  assume e: "str_int i = str_int j"
  consider "i < 0" "j < 0" | "i < 0" "0 \<le> j" | "0 \<le> i" "j < 0" | "0 \<le> i" "0 \<le> j"
    by linarith
  then show ?thesis
  proof cases
    case 1
    with e have "nat (- i) = nat (- j)"
      by (simp add: str_int_def str_nat_inj)
    with 1 show ?thesis by simp
  next
    case 2
    with e minus show ?thesis by (simp add: str_int_def)
  next
    case 3
    with e minus [of "str_nat (nat (- j))" "nat i"] show ?thesis by (simp add: str_int_def)
  next
    case 4
    with e have "nat i = nat j"
      by (simp add: str_int_def str_nat_inj)
    with 4 show ?thesis by simp
  qed
qed

lemma column_name_inj: "inj column_name"
  by (rule injI) (simp add: column_name_def str_int_inj)

subsection \<open>The shape of the tables\<close>

lemma getitem_in_cols: "getitem tb l = Inr vs \<Longrightarrow> (l, vs) \<in> set (cols tb)"
  by (simp add: getitem_Inr_iff map_of_SomeD)

lemma getitem_distinct:
  "distinct (map fst (cols tb)) \<Longrightarrow> (l, vs) \<in> set (cols tb) \<Longrightarrow> getitem tb l = Inr vs"
  by (simp add: getitem_Inr_iff)

lemma pivot_Inr:
  assumes "pivot df = Inr tb"
  shows "index tb = sort (remdups (map time (rows df)))"
    and "cols tb = map (\<lambda>c. (c, map (\<lambda>t. lookup_value (rows df) t c) (index tb)))
                     (sort (remdups (map channel (rows df))))"
    and "distinct (map (\<lambda>r. (time r, channel r)) (rows df))"
  using assms by (auto simp: pivot_def Let_def split: if_splits)

lemma pivot_labels:
  "pivot df = Inr tb \<Longrightarrow> map fst (cols tb) = sort (remdups (map channel (rows df)))"
  by (simp add: pivot_Inr(2) comp_def)

lemma pivot_cols_length:
  "pivot df = Inr tb \<Longrightarrow> (l, vs) \<in> set (cols tb) \<Longrightarrow> length vs = length (index tb)"
  by (auto simp: pivot_Inr(2))

lemma length_ffill_from: "length (ffill_from p xs) = length xs"
  by (induction p xs rule: ffill_from.induct) simp_all

lemma length_ffill: "length (ffill xs) = length xs"
  by (simp add: ffill_def length_ffill_from)

lemma length_bfill: "length (bfill xs) = length xs"
  by (simp add: bfill_def length_ffill_from)

lemma length_interpolate_from: "length (interpolate_from v k xs) = k + length xs"
  by (induction v k xs rule: interpolate_from.induct) simp_all

lemma length_interpolate: "length (interpolate xs) = length xs"
  by (induction xs rule: interpolate.induct) (simp_all add: length_interpolate_from)

lemma map_columns_labels: "map fst (cols (map_columns f tb)) = map fst (cols tb)"
  by (simp add: map_columns_def comp_def case_prod_unfold)

lemma map_columns_index: "index (map_columns f tb) = index tb"
  by (simp add: map_columns_def)

lemma fill_labels: "map fst (cols (fill_missing_values fm m tb)) = map fst (cols tb)"
  by (simp add: fill_missing_values_def map_columns_labels)

lemma fill_index: "index (fill_missing_values fm m tb) = index tb"
  by (simp add: fill_missing_values_def map_columns_index)

lemma fill_cols_length:
  assumes "\<And>l vs. (l, vs) \<in> set (cols tb) \<Longrightarrow> length vs = length (index tb)"
    and "(l, vs) \<in> set (cols (fill_missing_values fm m tb))"
  shows "length vs = length (index tb)"
  using assms
  by (auto simp: fill_missing_values_def map_columns_def length_interpolate length_ffill
      length_bfill split: if_splits)

lemma reshape_Inr:
  assumes "reshape fs file_path fm m = Inr tb"
  obtains df tb0 where "fs file_path = Some df" and "pivot df = Inr tb0"
    and "tb = rename_columns (fill_missing_values fm m tb0)"
  using assms by (auto simp: reshape_def read_csv_def split: option.splits sum.splits)

lemma reshape_index:
  assumes "fs file_path = Some df" and "reshape fs file_path fm m = Inr tb"
  shows "index tb = sort (remdups (map time (rows df)))"
  using assms
  by (auto elim!: reshape_Inr simp: rename_columns_def fill_index pivot_Inr(1))

lemma reshape_labels:
  assumes "fs file_path = Some df" and "reshape fs file_path fm m = Inr tb"
  shows "map fst (cols tb) = map column_name (sort (remdups (map channel (rows df))))"
proof -
  from assms obtain tb0 where p: "pivot df = Inr tb0"
    and t: "tb = rename_columns (fill_missing_values fm m tb0)"
    by (auto elim!: reshape_Inr)
  have "map fst (cols tb) = map column_name (map fst (cols (fill_missing_values fm m tb0)))"
    by (simp add: t rename_columns_def comp_def case_prod_unfold)
  with p show ?thesis
    by (simp add: fill_labels pivot_labels)
qed

lemma reshape_distinct:
  assumes "reshape fs file_path fm m = Inr tb"
  shows "distinct (map fst (cols tb))"
proof -
  from assms obtain df where "fs file_path = Some df"
    by (auto elim!: reshape_Inr)
  with assms have "map fst (cols tb) = map column_name (sort (remdups (map channel (rows df))))"
    by (simp add: reshape_labels)
  then show ?thesis
    by (simp add: distinct_map inj_on_subset [OF column_name_inj subset_UNIV])
qed

lemma reshape_cols_length:
  assumes "reshape fs file_path fm m = Inr tb" and "(l, vs) \<in> set (cols tb)"
  shows "length vs = length (index tb)"
proof -
  from assms(1) obtain df tb0 where p: "pivot df = Inr tb0"
    and t: "tb = rename_columns (fill_missing_values fm m tb0)"
    by (auto elim!: reshape_Inr)
  from assms(2) t obtain c where "(c, vs) \<in> set (cols (fill_missing_values fm m tb0))"
    by (auto simp: rename_columns_def)
  then have "length vs = length (index tb0)"
    using pivot_cols_length [OF p] by (rule fill_cols_length [rotated])
  then show ?thesis
    by (simp add: t rename_columns_def fill_index)
qed

text \<open>
  C8. Before the derivation the column names are exactly the names \<open>Channel_n\<close> of the
  channel identifiers \<open>n\<close> that occur in the input, no name occurs twice, and the
  renaming \<open>column_name\<close> (a total function, the decimal numeral after the prefix) is
  injective on all integers, so on the identifiers present. The channel labels are
  integers, on which \<open>int(col)\<close> changes nothing.
\<close>

theorem renamed_columns:
  assumes "fs file_path = Some df" and "reshape fs file_path fill_missing fill_method = Inr tb"
  shows "set (map fst (cols tb)) = column_name ` channel ` set (rows df)
    \<and> distinct (map fst (cols tb))
    \<and> inj column_name"
proof -
  have "map fst (cols tb) = map column_name (sort (remdups (map channel (rows df))))"
    using assms by (rule reshape_labels)
  then have "set (map fst (cols tb)) = column_name ` channel ` set (rows df)"
    by simp
  moreover have "distinct (map fst (cols tb))"
    using assms(2) by (rule reshape_distinct)
  ultimately show ?thesis
    using column_name_inj by blast
qed

theorem renamed_columns_witness:
  "gap_files ''data.txt'' = Some \<lparr>columns = [''time'', ''channel'', ''value''],
                 rows = [\<lparr>time = 0, channel = 2, val = Some (- 1)\<rparr>,
                         \<lparr>time = 0, channel = 4, val = Some 1\<rparr>,
                         \<lparr>time = 0, channel = 5, val = Some 3\<rparr>,
                         \<lparr>time = 1, channel = 2, val = Some (- 1)\<rparr>]\<rparr>
   \<and> reshape gap_files ''data.txt'' False ''interpolate'' =
       Inr \<lparr>index = [0, 1],
            cols = [(''Channel_2'', [Some (- 1), Some (- 1)]),
                    (''Channel_4'', [Some 1, None]),
                    (''Channel_5'', [Some 3, None])]\<rparr>
   \<and> set [''Channel_2'', ''Channel_4'', ''Channel_5''] = column_name ` {2, 4, 5}
   \<and> inj column_name"
proof -
  let ?df = "\<lparr>columns = [''time'', ''channel'', ''value''],
                 rows = [\<lparr>time = 0::rat, channel = 2, val = Some (- 1)\<rparr>,
                         \<lparr>time = 0, channel = 4, val = Some 1\<rparr>,
                         \<lparr>time = 0, channel = 5, val = Some 3\<rparr>,
                         \<lparr>time = 1, channel = 2, val = Some (- 1)\<rparr>]\<rparr>"
  let ?tb = "\<lparr>index = [0::rat, 1],
            cols = [(''Channel_2'', [Some (- 1), Some (- 1)]),
                    (''Channel_4'', [Some 1, None]),
                    (''Channel_5'', [Some 3, None])]\<rparr>"
  have f: "gap_files ''data.txt'' = Some ?df"
    by (simp add: gap_files_def)
  have r: "reshape gap_files ''data.txt'' False ''interpolate'' = Inr ?tb"
    by code_simp
  from renamed_columns [OF f r] f r show ?thesis
    by auto
qed

subsection \<open>Assigning a column\<close>


lemma map_of_replace_same:
  "l \<in> fst ` set xs \<Longrightarrow>
     map_of (map (\<lambda>(k, ws). if k = l then (k, vs) else (k, ws)) xs) l = Some vs"
proof (induction xs)
  case Nil
  then show ?case by simp
next
  case (Cons x xs)
  then show ?case by (cases x) auto
qed

lemma setitem_index: "index (setitem tb l vs) = index tb"
  by (simp add: setitem_def)

lemma getitem_setitem_same: "getitem (setitem tb l vs) l = Inr vs"
proof (cases "l \<in> fst ` set (cols tb)")
  case True
  then show ?thesis
    by (simp add: getitem_def setitem_def map_of_replace_same)
next
  case False
  then have "map_of (cols tb) l = None"
    by (simp add: map_of_eq_None_iff)
  with False show ?thesis
    by (simp add: getitem_def setitem_def map_add_def)
qed



lemma setitem_labels_absent:
  "l \<notin> fst ` set (cols tb) \<Longrightarrow> map fst (cols (setitem tb l vs)) = map fst (cols tb) @ [l]"
  by (simp add: setitem_def)

lemma setitem_cols:
  "(k, ws) \<in> set (cols (setitem tb l vs)) \<Longrightarrow> (k, ws) \<in> set (cols tb) \<or> (k, ws) = (l, vs)"
  by (auto simp: setitem_def split: if_splits)

lemma derive_channel_7_Inr:
  assumes "getitem tb ''Channel_5'' = Inr c5" and "getitem tb ''Channel_4'' = Inr c4"
  shows "derive_channel_7 tb = Inr (setitem tb ''Channel_7'' (map2 sub c5 c4))"
  using assms by (simp add: derive_channel_7_def)

lemma load_Inr:
  assumes "load_and_process_data fs file_path fm m = Inr tb"
  obtains tb0 c5 c4 where "reshape fs file_path fm m = Inr tb0"
    and "getitem tb0 ''Channel_5'' = Inr c5" and "getitem tb0 ''Channel_4'' = Inr c4"
    and "tb = setitem tb0 ''Channel_7'' (map2 sub c5 c4)"
  using assms
  by (auto simp: load_and_process_data_def derive_channel_7_def split: sum.splits)

lemma sub_nth:
  assumes "i < length c5" and "i < length c4"
  shows "(map2 sub c5 c4 ! i = None \<longleftrightarrow> c4 ! i = None \<or> c5 ! i = None)
    \<and> (\<forall>a b. c5 ! i = Some a \<and> c4 ! i = Some b \<longrightarrow> map2 sub c5 c4 ! i = Some (a - b))"
  using assms by (cases "c5 ! i"; cases "c4 ! i") simp_all

text \<open>
  Line 32 in the pipeline, on finite numbers with exact arithmetic: for a table before the
  derivation that has the columns \<open>Channel_4\<close> and \<open>Channel_5\<close>, the loader returns
  a table with the same index and a column \<open>Channel_7\<close> with one cell per time; in row
  \<open>i\<close> (the time \<open>index tb ! i\<close>) the cell is NaN exactly when the cell of
  \<open>Channel_4\<close> or of \<open>Channel_5\<close> is, and the difference otherwise.
\<close>

lemma derive_channel_7_exact:
  assumes "reshape fs file_path fill_missing fill_method = Inr tb"
    and "getitem tb ''Channel_4'' = Inr c4" and "getitem tb ''Channel_5'' = Inr c5"
  shows "\<exists>tb' c7. derive_channel_7 tb = Inr tb'
    \<and> load_and_process_data fs file_path fill_missing fill_method = Inr tb'
    \<and> index tb' = index tb
    \<and> getitem tb' ''Channel_7'' = Inr c7
    \<and> length c7 = length (index tb)
    \<and> (\<forall>i < length (index tb).
         (c7 ! i = None \<longleftrightarrow> c4 ! i = None \<or> c5 ! i = None)
         \<and> (\<forall>a b. c5 ! i = Some a \<and> c4 ! i = Some b \<longrightarrow> c7 ! i = Some (a - b)))"
proof -
  let ?c7 = "map2 sub c5 c4"
  let ?tb' = "setitem tb ''Channel_7'' ?c7"
  have l4: "length c4 = length (index tb)"
    using assms(1) getitem_in_cols [OF assms(2)] by (rule reshape_cols_length)
  have l5: "length c5 = length (index tb)"
    using assms(1) getitem_in_cols [OF assms(3)] by (rule reshape_cols_length)
  have d: "derive_channel_7 tb = Inr ?tb'"
    using assms(3) assms(2) by (rule derive_channel_7_Inr)
  then have "load_and_process_data fs file_path fill_missing fill_method = Inr ?tb'"
    by (simp add: load_and_process_data_def assms(1))
  moreover have "index ?tb' = index tb"
    by (rule setitem_index)
  moreover have "getitem ?tb' ''Channel_7'' = Inr ?c7"
    by (rule getitem_setitem_same)
  moreover have "length ?c7 = length (index tb)"
    by (simp add: l4 l5)
  moreover have "\<forall>i < length (index tb).
         (?c7 ! i = None \<longleftrightarrow> c4 ! i = None \<or> c5 ! i = None)
         \<and> (\<forall>a b. c5 ! i = Some a \<and> c4 ! i = Some b \<longrightarrow> ?c7 ! i = Some (a - b))"
    using sub_nth [of _ c5 c4] by (simp add: l4 l5)
  ultimately show ?thesis
    using d by blast
qed

lemma np_sub_None_iff:
  "np_sub rnd x y = None \<longleftrightarrow>
     x = None \<or> y = None \<or> (x = Some PInf \<and> y = Some PInf) \<or> (x = Some NInf \<and> y = Some NInf)"
  by (cases "(rnd, x, y)" rule: np_sub.cases) simp_all

lemma np_sub_exact: "np_sub Fin (map_option Fin a) (map_option Fin b) = map_option Fin (sub a b)"
  by (cases a; cases b) simp_all

lemma np_sub_nth:
  assumes "i < length c5" and "i < length c4"
  shows "(c4 ! i = None \<or> c5 ! i = None \<longrightarrow> map2 (np_sub rnd) c5 c4 ! i = None)
    \<and> (\<forall>a b. c5 ! i = Some (Fin a) \<and> c4 ! i = Some (Fin b) \<longrightarrow>
          map2 (np_sub rnd) c5 c4 ! i = Some (rnd (a - b)))
    \<and> (map2 (np_sub rnd) c5 c4 ! i = None \<longleftrightarrow>
          c4 ! i = None \<or> c5 ! i = None
          \<or> (c5 ! i = Some PInf \<and> c4 ! i = Some PInf)
          \<or> (c5 ! i = Some NInf \<and> c4 ! i = Some NInf))"
proof -
  have "map2 (np_sub rnd) c5 c4 ! i = np_sub rnd (c5 ! i) (c4 ! i)"
    using assms by simp
  then show ?thesis
    by (auto simp: np_sub_None_iff)
qed

lemma np_sub_columns_exact:
  "map2 (np_sub Fin) (map (map_option Fin) c5) (map (map_option Fin) c4)
     = map (map_option Fin) (map2 sub c5 c4)"
proof (induction c5 arbitrary: c4)
  case Nil
  show ?case by simp
next
  case (Cons a c5)
  then show ?case by (cases c4) (simp_all add: np_sub_exact)
qed

text \<open>
  C2, as the code has it. For a table with the columns \<open>Channel_4\<close> and \<open>Channel_5\<close>,
  one cell per time each, the derivation returns a table with the same index and a column
  \<open>Channel_7\<close> with one cell per time. In row \<open>i\<close> (the time \<open>index tb ! i\<close>)
  \<^item> the cell is NaN when the cell of \<open>Channel_4\<close> or of \<open>Channel_5\<close> is;
  \<^item> when both cells are finite numbers the cell is present: it is their difference as
    the number type of the columns stores it (\<open>rnd\<close>: rounded and overflowing in
    float64, wrapped around in int64);
  \<^item> the cell is NaN exactly when a cell of the two is NaN or both are the same infinity.
  The statement holds for every rounding \<open>rnd\<close>.
\<close>

theorem derived_column:
  assumes "getitem tb ''Channel_4'' = Inr c4" and "getitem tb ''Channel_5'' = Inr c5"
    and "length c4 = length (index tb)" and "length c5 = length (index tb)"
  shows "\<exists>tb' c7. derive_channel_7_np rnd tb = Inr tb'
    \<and> index tb' = index tb
    \<and> getitem tb' ''Channel_7'' = Inr c7
    \<and> length c7 = length (index tb)
    \<and> (\<forall>i < length (index tb).
         (c4 ! i = None \<or> c5 ! i = None \<longrightarrow> c7 ! i = None)
         \<and> (\<forall>a b. c5 ! i = Some (Fin a) \<and> c4 ! i = Some (Fin b) \<longrightarrow>
               c7 ! i = Some (rnd (a - b)))
         \<and> (c7 ! i = None \<longleftrightarrow>
               c4 ! i = None \<or> c5 ! i = None
               \<or> (c5 ! i = Some PInf \<and> c4 ! i = Some PInf)
               \<or> (c5 ! i = Some NInf \<and> c4 ! i = Some NInf)))"
proof -
  let ?c7 = "map2 (np_sub rnd) c5 c4"
  let ?tb' = "setitem tb ''Channel_7'' ?c7"
  have "derive_channel_7_np rnd tb = Inr ?tb'"
    using assms(1,2) by (simp add: derive_channel_7_np_def)
  moreover have "index ?tb' = index tb"
    by (rule setitem_index)
  moreover have "getitem ?tb' ''Channel_7'' = Inr ?c7"
    by (rule getitem_setitem_same)
  moreover have "length ?c7 = length (index tb)"
    using assms(3,4) by simp
  moreover have "\<forall>i < length (index tb).
         (c4 ! i = None \<or> c5 ! i = None \<longrightarrow> ?c7 ! i = None)
         \<and> (\<forall>a b. c5 ! i = Some (Fin a) \<and> c4 ! i = Some (Fin b) \<longrightarrow>
               ?c7 ! i = Some (rnd (a - b)))
         \<and> (?c7 ! i = None \<longleftrightarrow>
               c4 ! i = None \<or> c5 ! i = None
               \<or> (c5 ! i = Some PInf \<and> c4 ! i = Some PInf)
               \<or> (c5 ! i = Some NInf \<and> c4 ! i = Some NInf))"
    using np_sub_nth [of _ c5 c4 rnd] assms(3,4) by simp
  ultimately show ?thesis
    by blast
qed

theorem derived_column_witness:
  "getitem \<lparr>index = [0::rat, 1, 2],
            cols = [(''Channel_4'', [Some (Fin 1), None, Some PInf]),
                    (''Channel_5'', [Some (Fin 3), Some (Fin 2), Some (Fin 5)])]\<rparr> ''Channel_4''
     = Inr [Some (Fin 1), None, Some PInf]
   \<and> (\<exists>tb' c7. derive_channel_7_np Fin
          \<lparr>index = [0::rat, 1, 2],
           cols = [(''Channel_4'', [Some (Fin 1), None, Some PInf]),
                   (''Channel_5'', [Some (Fin 3), Some (Fin 2), Some (Fin 5)])]\<rparr> = Inr tb'
         \<and> getitem tb' ''Channel_7'' = Inr c7 \<and> length c7 = 3
         \<and> c7 ! 0 = Some (Fin (3 - 1)) \<and> c7 ! 1 = None \<and> c7 ! 2 \<noteq> None)"
proof -
  let ?c4 = "[Some (Fin 1), None, Some PInf]"
  let ?c5 = "[Some (Fin 3), Some (Fin 2), Some (Fin 5)]"
  let ?tb = "\<lparr>index = [0::rat, 1, 2], cols = [(''Channel_4'', ?c4), (''Channel_5'', ?c5)]\<rparr>"
  have g4: "getitem ?tb ''Channel_4'' = Inr ?c4"
    by (simp add: getitem_def)
  have g5: "getitem ?tb ''Channel_5'' = Inr ?c5"
    by (simp add: getitem_def)
  have l4: "length ?c4 = length (index ?tb)" and l5: "length ?c5 = length (index ?tb)"
    by simp_all
  from derived_column [OF g4 g5 l4 l5, of Fin] obtain tb' c7
    where d: "derive_channel_7_np Fin ?tb = Inr tb'"
      and g7: "getitem tb' ''Channel_7'' = Inr c7"
      and l7: "length c7 = length (index ?tb)"
      and q: "\<forall>i < length (index ?tb).
         (?c4 ! i = None \<or> ?c5 ! i = None \<longrightarrow> c7 ! i = None)
         \<and> (\<forall>a b. ?c5 ! i = Some (Fin a) \<and> ?c4 ! i = Some (Fin b) \<longrightarrow>
               c7 ! i = Some (Fin (a - b)))
         \<and> (c7 ! i = None \<longleftrightarrow>
               ?c4 ! i = None \<or> ?c5 ! i = None
               \<or> (?c5 ! i = Some PInf \<and> ?c4 ! i = Some PInf)
               \<or> (?c5 ! i = Some NInf \<and> ?c4 ! i = Some NInf))"
    by blast
  from q [rule_format, of 0] have "c7 ! 0 = Some (Fin (3 - 1))"
    by simp
  moreover from q [rule_format, of 1] have "c7 ! 1 = None"
    by simp
  moreover from q [rule_format, of 2] have "c7 ! 2 \<noteq> None"
    by simp
  moreover from l7 have "length c7 = 3"
    by simp
  ultimately have "\<exists>tb' c7. derive_channel_7_np Fin ?tb = Inr tb'
         \<and> getitem tb' ''Channel_7'' = Inr c7 \<and> length c7 = 3
         \<and> c7 ! 0 = Some (Fin (3 - 1)) \<and> c7 ! 1 = None \<and> c7 ! 2 \<noteq> None"
    using d g7 by blast
  with g4 show ?thesis by blast
qed

text \<open>
  C2, as the claim states it, fails. With \<open>inf\<close> in both columns at time 0 both cells
  are present and the cell of \<open>Channel_7\<close> is NaN. And in int64 columns the difference
  of \<open>2^63 - 1\<close> and \<open>-1\<close> wraps around to \<open>-2^63\<close>, which is not the difference of
  the two values.
\<close>

theorem infinity_minus_infinity_counterexample:
  "derive_channel_7_np Fin
     \<lparr>index = [0::rat],
      cols = [(''Channel_4'', [Some PInf]), (''Channel_5'', [Some PInf])]\<rparr> =
     Inr \<lparr>index = [0],
          cols = [(''Channel_4'', [Some PInf]), (''Channel_5'', [Some PInf]),
                  (''Channel_7'', [None])]\<rparr>
   \<and> derive_channel_7_np int64
     \<lparr>index = [0::rat],
      cols = [(''Channel_4'', [Some (Fin (- 1))]),
              (''Channel_5'', [Some (Fin 9223372036854775807)])]\<rparr> =
     Inr \<lparr>index = [0],
          cols = [(''Channel_4'', [Some (Fin (- 1))]),
                  (''Channel_5'', [Some (Fin 9223372036854775807)]),
                  (''Channel_7'', [Some (Fin (- 9223372036854775808))])]\<rparr>"
  by code_simp



subsection \<open>The pivot\<close>

lemma find_by_key:
  assumes "distinct (map key rs)" and "r \<in> set rs"
  shows "find (\<lambda>x. key x = key r) rs = Some r"
  using assms
proof (induction rs)
  case Nil
  then show ?case by simp
next
  case (Cons x xs)
  show ?case
  proof (cases "x = r")
    case True
    then show ?thesis by simp
  next
    case False
    with Cons.prems have "r \<in> set xs" by simp
    with Cons.prems have "key x \<noteq> key r"
      by (metis distinct.simps(2) image_eqI list.simps(9) set_map)
    with Cons \<open>r \<in> set xs\<close> show ?thesis by simp
  qed
qed

lemma lookup_value_present:
  assumes "distinct (map (\<lambda>r. (time r, channel r)) rs)" and "r \<in> set rs"
  shows "lookup_value rs (time r) (channel r) = val r"
proof -
  have "find (\<lambda>x. (time x, channel x) = (time r, channel r)) rs = Some r"
    using assms by (rule find_by_key)
  then show ?thesis
    by (simp add: lookup_value_def)
qed

lemma lookup_value_absent:
  assumes "(t, c) \<notin> set (map (\<lambda>r. (time r, channel r)) rs)"
  shows "lookup_value rs t c = None"
proof -
  have "find (\<lambda>r. time r = t \<and> channel r = c) rs = None"
    using assms by (auto simp: find_None_iff)
  then show ?thesis
    by (simp add: lookup_value_def)
qed

lemma loc_pivot:
  assumes "pivot df = Inr tb" and "t \<in> time ` set (rows df)" and "c \<in> channel ` set (rows df)"
  shows "loc tb t c = Some (lookup_value (rows df) t c)"
proof -
  let ?chs = "sort (remdups (map channel (rows df)))"
  let ?col = "\<lambda>c. map (\<lambda>t. lookup_value (rows df) t c) (index tb)"
  have "map_of (cols tb) c = map_of (map (\<lambda>c. (c, ?col c)) ?chs) c"
    using assms(1) by (simp add: pivot_Inr(2))
  also have "\<dots> = Some (?col c)"
    using assms(3) by (simp add: map_of_map_restrict)
  finally have "loc tb t c = map_of (zip (index tb) (?col c)) t"
    by (simp add: loc_def)
  also have "\<dots> = Some (lookup_value (rows df) t c)"
    using assms(1,2) by (simp add: map_of_zip_map pivot_Inr(1))
  finally show ?thesis .
qed

lemma pivot_ok:
  assumes "''time'' \<in> set (columns df)" and "''channel'' \<in> set (columns df)"
    and "''value'' \<in> set (columns df)"
    and "distinct (map (\<lambda>r. (time r, channel r)) (rows df))"
  shows "\<exists>tb. pivot df = Inr tb"
  using assms by (simp add: pivot_def Let_def)

lemma pivot_KeyError:
  assumes "''time'' \<notin> set (columns df) \<or> ''channel'' \<notin> set (columns df)
    \<or> ''value'' \<notin> set (columns df)"
  shows "pivot df = Inl KeyError"
  using assms by (auto simp: pivot_def)

text \<open>
  C4, as the code has it. On a frame with the three headers, \<open>pivot\<close> returns a table
  exactly when no time and channel occur together in two records. In that table every
  index entry and every column label occurs once, the cell of a record's time and channel
  is the record's value, and a cell that no record gives is NaN. When a pair occurs
  twice, \<open>pivot\<close> raises a ValueError and there is no table: no record wins.
\<close>

theorem pivot_cells:
  assumes "''time'' \<in> set (columns df)" and "''channel'' \<in> set (columns df)"
    and "''value'' \<in> set (columns df)"
  shows "(distinct (map (\<lambda>r. (time r, channel r)) (rows df)) \<longrightarrow>
           (\<exists>tb. pivot df = Inr tb
              \<and> distinct (index tb) \<and> distinct (map fst (cols tb))
              \<and> (\<forall>r \<in> set (rows df). loc tb (time r) (channel r) = Some (val r))
              \<and> (\<forall>t \<in> time ` set (rows df). \<forall>c \<in> channel ` set (rows df).
                    (t, c) \<notin> set (map (\<lambda>r. (time r, channel r)) (rows df)) \<longrightarrow>
                    loc tb t c = Some None)))
       \<and> (\<not> distinct (map (\<lambda>r. (time r, channel r)) (rows df)) \<longrightarrow>
           pivot df = Inl ValueError)"
proof (intro conjI impI)
  assume d: "distinct (map (\<lambda>r. (time r, channel r)) (rows df))"
  with assms obtain tb where p: "pivot df = Inr tb"
    using pivot_ok by blast
  have "distinct (index tb)"
    by (simp add: pivot_Inr(1) [OF p])
  moreover have "distinct (map fst (cols tb))"
    by (simp add: pivot_labels [OF p])
  moreover have "\<forall>r \<in> set (rows df). loc tb (time r) (channel r) = Some (val r)"
    using loc_pivot [OF p] lookup_value_present [OF d] by simp
  moreover have "\<forall>t \<in> time ` set (rows df). \<forall>c \<in> channel ` set (rows df).
      (t, c) \<notin> set (map (\<lambda>r. (time r, channel r)) (rows df)) \<longrightarrow> loc tb t c = Some None"
    using loc_pivot [OF p] lookup_value_absent [of _ _ "rows df"] by simp
  ultimately show "\<exists>tb. pivot df = Inr tb
              \<and> distinct (index tb) \<and> distinct (map fst (cols tb))
              \<and> (\<forall>r \<in> set (rows df). loc tb (time r) (channel r) = Some (val r))
              \<and> (\<forall>t \<in> time ` set (rows df). \<forall>c \<in> channel ` set (rows df).
                    (t, c) \<notin> set (map (\<lambda>r. (time r, channel r)) (rows df)) \<longrightarrow>
                    loc tb t c = Some None)"
    using p by blast
next
  assume "\<not> distinct (map (\<lambda>r. (time r, channel r)) (rows df))"
  with assms show "pivot df = Inl ValueError"
    by (simp add: pivot_def)
qed

theorem pivot_cells_witness:
  "distinct (map (\<lambda>r. (time r, channel r))
      [\<lparr>time = 0::rat, channel = 4, val = Some (1::rat)\<rparr>, \<lparr>time = 1, channel = 5, val = Some 3\<rparr>])
   \<and> (\<exists>tb. pivot \<lparr>columns = [''time'', ''channel'', ''value''],
                   rows = [\<lparr>time = 0::rat, channel = 4, val = Some (1::rat)\<rparr>,
                           \<lparr>time = 1, channel = 5, val = Some 3\<rparr>]\<rparr> = Inr tb
          \<and> loc tb 0 4 = Some (Some 1) \<and> loc tb 1 5 = Some (Some 3)
          \<and> loc tb 0 5 = Some None \<and> loc tb 1 4 = Some None)"
proof -
  let ?rs = "[\<lparr>time = 0::rat, channel = 4, val = Some (1::rat)\<rparr>, \<lparr>time = 1, channel = 5, val = Some 3\<rparr>]"
  let ?df = "\<lparr>columns = [''time'', ''channel'', ''value''], rows = ?rs\<rparr>"
  have h: "''time'' \<in> set (columns ?df)" "''channel'' \<in> set (columns ?df)"
    "''value'' \<in> set (columns ?df)"
    by simp_all
  have d: "distinct (map (\<lambda>r. (time r, channel r)) (rows ?df))"
    by simp
  from pivot_cells [OF h] d obtain tb where p: "pivot ?df = Inr tb"
    and a: "\<forall>r \<in> set (rows ?df). loc tb (time r) (channel r) = Some (val r)"
    and b: "\<forall>t \<in> time ` set (rows ?df). \<forall>c \<in> channel ` set (rows ?df).
                    (t, c) \<notin> set (map (\<lambda>r. (time r, channel r)) (rows ?df)) \<longrightarrow>
                    loc tb t c = Some None"
    by blast
  from a have "loc tb 0 4 = Some (Some 1)" "loc tb 1 5 = Some (Some 3)"
    by simp_all
  moreover from b have "loc tb 0 5 = Some None" "loc tb 1 4 = Some None"
    by simp_all
  ultimately show ?thesis
    using p d by auto
qed

text \<open>
  C4, as the claim states it, fails: for two records with time 0 and channel 4 the pivot
  raises and the loader returns no table, so the later record does not win.
\<close>

theorem duplicate_pair_counterexample:
  "pivot \<lparr>columns = [''time'', ''channel'', ''value''],
          rows = [\<lparr>time = 0::rat, channel = 4, val = Some (1::rat)\<rparr>,
                  \<lparr>time = 0, channel = 5, val = Some 3\<rparr>,
                  \<lparr>time = 0, channel = 4, val = Some 2\<rparr>]\<rparr> = Inl ValueError
   \<and> load_and_process_data duplicate_files ''data.txt'' False ''interpolate'' = Inl ValueError"
  by code_simp

subsection \<open>The first time of a condition\<close>

lemma index_min_Min: "index_min ts = (if ts = [] then None else Some (Min (set ts)))"
proof (cases ts)
  case Nil
  then show ?thesis by simp
next
  case (Cons t ts')
  have "fold min ts' t = Min (set (t # ts'))"
    by (rule Min.set_eq_fold [symmetric])
  with Cons show ?thesis by simp
qed

lemma set_select_index:
  assumes "length keep = length idx"
  shows "set (select_index idx keep) = {idx ! i |i. i < length idx \<and> keep ! i}"
proof -
  have "set (select_index idx keep) = fst ` {p \<in> set (zip idx keep). snd p}"
    by (simp add: select_index_def)
  also have "\<dots> = {idx ! i |i. i < length idx \<and> keep ! i}"
    using assms by (force simp: set_zip)
  finally show ?thesis .
qed

lemma index_min_select:
  assumes "length keep = length idx"
  shows "index_min (select_index idx keep) = first_time idx (\<lambda>i. keep ! i)"
proof -
  let ?S = "{idx ! i |i. i < length idx \<and> keep ! i}"
  have s: "set (select_index idx keep) = ?S"
    using assms by (rule set_select_index)
  have "select_index idx keep = [] \<longleftrightarrow> ?S = {}"
    using s by (metis set_empty)
  also have "\<dots> \<longleftrightarrow> (\<forall>i < length idx. \<not> keep ! i)"
    by auto
  finally show ?thesis
    by (simp add: index_min_Min first_time_def s)
qed

lemma first_time_cong:
  assumes "\<And>i. i < length idx \<Longrightarrow> P i = Q i"
  shows "first_time idx P = first_time idx Q"
proof -
  have "{idx ! i |i. i < length idx \<and> P i} = {idx ! i |i. i < length idx \<and> Q i}"
    using assms by auto
  then show ?thesis
    using assms by (simp add: first_time_def)
qed

lemma lt_below: "i < length col \<Longrightarrow> lt (col ! i) c = below col c i"
  by (cases "col ! i") (simp_all add: below_def)

lemma first_condition:
  assumes "length col = length idx"
  shows "index_min (select_index idx (map (\<lambda>v. lt v c) col)) = first_time idx (below col c)"
proof -
  have "index_min (select_index idx (map (\<lambda>v. lt v c) col))
      = first_time idx (\<lambda>i. map (\<lambda>v. lt v c) col ! i)"
    using assms by (simp add: index_min_select)
  also have "\<dots> = first_time idx (below col c)"
    using assms by (intro first_time_cong) (simp add: lt_below)
  finally show ?thesis .
qed

lemma both_conditions:
  assumes "length c2 = length idx" and "length c7 = length idx"
  shows "index_min (select_index idx (map2 (\<and>) (map (\<lambda>v. lt v a) c2) (map (\<lambda>v. lt v b) c7)))
    = first_time idx (\<lambda>i. below c2 a i \<and> below c7 b i)"
proof -
  let ?keep = "map2 (\<and>) (map (\<lambda>v. lt v a) c2) (map (\<lambda>v. lt v b) c7)"
  have "index_min (select_index idx ?keep) = first_time idx (\<lambda>i. ?keep ! i)"
    using assms by (simp add: index_min_select)
  also have "\<dots> = first_time idx (\<lambda>i. below c2 a i \<and> below c7 b i)"
    using assms by (intro first_time_cong) (simp add: lt_below)
  finally show ?thesis .
qed

lemma load_cols_length:
  assumes "load_and_process_data fs file_path fm m = Inr tb" and "(l, vs) \<in> set (cols tb)"
  shows "length vs = length (index tb)"
proof -
  from assms(1) obtain tb0 c5 c4 where r: "reshape fs file_path fm m = Inr tb0"
    and g5: "getitem tb0 ''Channel_5'' = Inr c5" and g4: "getitem tb0 ''Channel_4'' = Inr c4"
    and t: "tb = setitem tb0 ''Channel_7'' (map2 sub c5 c4)"
    by (rule load_Inr)
  have "length c5 = length (index tb0)"
    using r getitem_in_cols [OF g5] by (rule reshape_cols_length)
  moreover have "length c4 = length (index tb0)"
    using r getitem_in_cols [OF g4] by (rule reshape_cols_length)
  ultimately have "length (map2 sub c5 c4) = length (index tb0)"
    by simp
  moreover from assms(2)
  have "(l, vs) \<in> set (cols tb0) \<or> (l, vs) = (''Channel_7'', map2 sub c5 c4)"
    unfolding t by (rule setitem_cols)
  ultimately show ?thesis
    using reshape_cols_length [OF r] by (auto simp: t setitem_index)
qed

text \<open>
  C1, as the code has it. For a table returned by \<open>load_and_process_data\<close> that has a
  column \<open>Channel_2\<close>, the evaluator returns three results: for each of the predicates
  \<open>Channel_2 < -0.5\<close>, \<open>Channel_7 < 0\<close> and their conjunction, the least time of a row
  in which the predicate holds with the cells it reads present, and the NaN sentinel
  when there is no such row. A row with a missing cell never satisfies a predicate that
  reads it.
\<close>

theorem first_conditions:
  assumes "load_and_process_data fs file_path fill_missing fill_method = Inr tb"
    and "getitem tb ''Channel_2'' = Inr c2"
  shows "\<exists>c7. getitem tb ''Channel_7'' = Inr c7
    \<and> find_first_conditions tb =
        Inr (first_time (index tb) (below c2 (- 1 / 2)),
             first_time (index tb) (below c7 0),
             first_time (index tb) (\<lambda>i. below c2 (- 1 / 2) i \<and> below c7 0 i))"
proof -
  from assms(1) obtain tb0 c5 c4 where t: "tb = setitem tb0 ''Channel_7'' (map2 sub c5 c4)"
    by (rule load_Inr)
  let ?c7 = "map2 sub c5 c4"
  have g7: "getitem tb ''Channel_7'' = Inr ?c7"
    unfolding t by (rule getitem_setitem_same)
  have l2: "length c2 = length (index tb)"
    using assms(1) getitem_in_cols [OF assms(2)] by (rule load_cols_length)
  have l7: "length ?c7 = length (index tb)"
    using assms(1) getitem_in_cols [OF g7] by (rule load_cols_length)
  have "find_first_conditions tb =
        Inr (first_time (index tb) (below c2 (- 1 / 2)),
             first_time (index tb) (below ?c7 0),
             first_time (index tb) (\<lambda>i. below c2 (- 1 / 2) i \<and> below ?c7 0 i))"
    unfolding find_first_conditions_def Let_def
    by (simp only: assms(2) g7 sum.case first_condition [OF l2] first_condition [OF l7]
        both_conditions [OF l2 l7])
  with g7 show ?thesis by blast
qed

theorem first_conditions_witness:
  "load_and_process_data gap_files ''data.txt'' False ''interpolate'' =
       Inr \<lparr>index = [0, 1],
            cols = [(''Channel_2'', [Some (- 1), Some (- 1)]),
                    (''Channel_4'', [Some 1, None]),
                    (''Channel_5'', [Some 3, None]),
                    (''Channel_7'', [Some 2, None])]\<rparr>
   \<and> find_first_conditions \<lparr>index = [0::rat, 1],
            cols = [(''Channel_2'', [Some (- 1), Some (- 1)]),
                    (''Channel_4'', [Some 1, None]),
                    (''Channel_5'', [Some 3, None]),
                    (''Channel_7'', [Some 2, None])]\<rparr> = Inr (Some 0, None, None)
   \<and> first_time [0::rat, 1] (below [Some (- 1), Some (- 1)] (- 1 / 2)) = Some 0
   \<and> first_time [0::rat, 1] (below [Some 2, None] 0) = None"
proof -
  let ?tb = "\<lparr>index = [0::rat, 1],
            cols = [(''Channel_2'', [Some (- 1 :: rat), Some (- 1)]),
                    (''Channel_4'', [Some 1, None]),
                    (''Channel_5'', [Some 3, None]),
                    (''Channel_7'', [Some 2, None])]\<rparr>"
  have l: "load_and_process_data gap_files ''data.txt'' False ''interpolate'' = Inr ?tb"
    by code_simp
  have g2: "getitem ?tb ''Channel_2'' = Inr [Some (- 1), Some (- 1)]"
    by (simp add: getitem_def)
  have g7: "getitem ?tb ''Channel_7'' = Inr [Some 2, None]"
    by (simp add: getitem_def)
  have e: "find_first_conditions ?tb = Inr (Some 0, None, None)"
    by code_simp
  from first_conditions [OF l g2] g7 e
  have "first_time [0::rat, 1] (below [Some (- 1), Some (- 1)] (- 1 / 2)) = Some 0"
    and "first_time [0::rat, 1] (below [Some 2, None] 0) = None"
    by simp_all
  with l e show ?thesis by simp
qed

text \<open>
  C1, as the claim states it, fails on a table without a column \<open>Channel_2\<close>: the log
  has records of channels 4 and 5 only, the loader returns its table, and the evaluator
  raises a KeyError where the claim has it return the sentinel.
\<close>

theorem no_channel_2_counterexample:
  "load_and_process_data no_channel_2 ''data.txt'' False ''interpolate'' =
       Inr \<lparr>index = [0],
            cols = [(''Channel_4'', [Some 1]), (''Channel_5'', [Some 3]),
                    (''Channel_7'', [Some 2])]\<rparr>
   \<and> find_first_conditions \<lparr>index = [0::rat],
            cols = [(''Channel_4'', [Some 1]), (''Channel_5'', [Some 3]),
                    (''Channel_7'', [Some 2])]\<rparr> = Inl KeyError"
  by code_simp

subsection \<open>Linear interpolation\<close>












lemma getitem_map_columns:
  "getitem tb l = Inr xs \<Longrightarrow> getitem (map_columns f tb) l = Inr (f xs)"
  by (simp add: getitem_Inr_iff map_columns_def map_of_map)




subsection \<open>Malformed input\<close>

lemma ffill_from_keeps:
  "i < length xs \<Longrightarrow> xs ! i \<noteq> None \<Longrightarrow> ffill_from p xs ! i = xs ! i"
proof (induction p xs arbitrary: i rule: ffill_from.induct)
  case (1 prev)
  then show ?case by simp
next
  case (2 prev xs)
  then show ?case by (cases i) simp_all
next
  case (3 prev v xs)
  then show ?case by (cases i) simp_all
qed

lemma ffill_keeps: "i < length xs \<Longrightarrow> xs ! i \<noteq> None \<Longrightarrow> ffill xs ! i = xs ! i"
  by (simp add: ffill_def ffill_from_keeps)

lemma bfill_keeps:
  assumes "i < length xs" and "xs ! i \<noteq> None"
  shows "bfill xs ! i = xs ! i"
proof -
  let ?j = "length xs - Suc i"
  have j: "?j < length (rev xs)"
    using assms(1) by simp
  have r: "rev xs ! ?j = xs ! i"
    using assms(1) by (simp add: rev_nth)
  have "bfill xs ! i = ffill_from None (rev xs) ! ?j"
    using assms(1) by (simp add: bfill_def rev_nth length_ffill_from)
  also have "\<dots> = rev xs ! ?j"
    using j r assms(2) by (simp add: ffill_from_keeps)
  finally show ?thesis
    using r by simp
qed

lemma fill_object_Inr:
  assumes "fill_missing_values_object fm m tb = Inr tb'"
  shows "\<exists>f. tb' = map_columns f tb
    \<and> (\<forall>xs. length (f xs) = length xs)
    \<and> (\<forall>xs i. i < length xs \<and> xs ! i \<noteq> None \<longrightarrow> f xs ! i = xs ! i)"
proof -
  have id: "map_columns (\<lambda>xs. xs) tb = tb"
    by (simp add: map_columns_def case_prod_unfold)
  consider "tb' = tb" | "tb' = map_columns ffill tb" | "tb' = map_columns bfill tb"
    using assms by (auto simp: fill_missing_values_object_def split: if_splits)
  then show ?thesis
  proof cases
    case 1
    with id have "tb' = map_columns (\<lambda>xs. xs) tb" by simp
    then show ?thesis by (intro exI [of _ "\<lambda>xs. xs"]) simp
  next
    case 2
    then show ?thesis by (intro exI [of _ ffill]) (simp add: length_ffill ffill_keeps)
  next
    case 3
    then show ?thesis by (intro exI [of _ bfill]) (simp add: length_bfill bfill_keeps)
  qed
qed

lemma getitem_pivot:
  assumes "pivot df = Inr tb" and "c \<in> channel ` set (rows df)"
  shows "getitem tb c = Inr (map (\<lambda>t. lookup_value (rows df) t c) (index tb))"
proof -
  let ?chs = "sort (remdups (map channel (rows df)))"
  let ?col = "\<lambda>c. map (\<lambda>t. lookup_value (rows df) t c) (index tb)"
  have "map_of (cols tb) c = map_of (map (\<lambda>c. (c, ?col c)) ?chs) c"
    using assms(1) by (simp add: pivot_Inr(2))
  also have "\<dots> = Some (?col c)"
    using assms(2) by (simp add: map_of_map_restrict)
  finally show ?thesis
    by (simp add: getitem_Inr_iff)
qed

lemma getitem_rename_columns:
  assumes "getitem tb c = Inr vs"
  shows "getitem (rename_columns tb) (column_name c) = Inr vs"
proof -
  have "map_of (cols tb) c = Some vs"
    using assms by (simp add: getitem_Inr_iff)
  then have "map_of (map (\<lambda>(col, vs). (column_name col, vs)) (cols tb)) (column_name c) = Some vs"
    using column_name_inj by (rule map_of_mapk_SomeI [rotated])
  then show ?thesis
    by (simp add: getitem_Inr_iff rename_columns_def)
qed

lemma sub_object_raises:
  assumes "i < length c5" and "i < length c4" and "c5 ! i \<noteq> None" and "c4 ! i \<noteq> None"
  shows "sub_object c5 c4 = Inl TypeError"
proof -
  have "(c5 ! i, c4 ! i) \<in> set (zip c5 c4)"
    using assms(1,2) by (auto simp: set_zip)
  with assms(3,4) have "list_ex (\<lambda>(a, b). a \<noteq> None \<and> b \<noteq> None) (zip c5 c4)"
    by (auto simp: list_ex_iff)
  then show ?thesis
    by (simp add: sub_object_def)
qed

lemma text_difference_raises:
  fixes df :: "('t::linorder, string) frame"
  assumes p: "pivot df = Inr tb0"
    and f: "fill_missing_values_object fm m tb0 = Inr tb1"
    and r4: "r4 \<in> set (rows df)" and r5: "r5 \<in> set (rows df)"
    and t: "time r4 = time r5" and c4: "channel r4 = 4" and c5: "channel r5 = 5"
    and v4: "val r4 \<noteq> None" and v5: "val r5 \<noteq> None"
  shows "derive_channel_7_object (rename_columns tb1) = Inl TypeError"
proof -
  let ?col = "\<lambda>c. map (\<lambda>t. lookup_value (rows df) t c) (index tb0)"
  from fill_object_Inr [OF f] obtain g where tb1: "tb1 = map_columns g tb0"
    and lg: "\<And>xs. length (g xs) = length xs"
    and kg: "\<And>xs i. i < length xs \<Longrightarrow> xs ! i \<noteq> None \<Longrightarrow> g xs ! i = xs ! i"
    by blast
  have d: "distinct (map (\<lambda>r. (time r, channel r)) (rows df))"
    using p by (rule pivot_Inr(3))
  have "time r4 \<in> set (index tb0)"
    using r4 by (simp add: pivot_Inr(1) [OF p])
  then obtain i where i: "i < length (index tb0)" and ti: "index tb0 ! i = time r4"
    by (auto simp: in_set_conv_nth)
  have l4: "lookup_value (rows df) (time r4) 4 = val r4"
    using lookup_value_present [OF d r4] c4 by simp
  have l5: "lookup_value (rows df) (time r4) 5 = val r5"
    using lookup_value_present [OF d r5] c5 t by simp
  have "4 \<in> channel ` set (rows df)"
    using r4 c4 by (metis image_eqI)
  with p have g4: "getitem tb0 4 = Inr (?col 4)"
    by (rule getitem_pivot)
  have "5 \<in> channel ` set (rows df)"
    using r5 c5 by (metis image_eqI)
  with p have g5: "getitem tb0 5 = Inr (?col 5)"
    by (rule getitem_pivot)
  have n4: "column_name 4 = ''Channel_4''" and n5: "column_name 5 = ''Channel_5''"
    by code_simp+
  have "getitem (rename_columns tb1) (column_name 4) = Inr (g (?col 4))"
    unfolding tb1 by (intro getitem_rename_columns getitem_map_columns g4)
  then have h4: "getitem (rename_columns tb1) ''Channel_4'' = Inr (g (?col 4))"
    by (simp only: n4)
  have "getitem (rename_columns tb1) (column_name 5) = Inr (g (?col 5))"
    unfolding tb1 by (intro getitem_rename_columns getitem_map_columns g5)
  then have h5: "getitem (rename_columns tb1) ''Channel_5'' = Inr (g (?col 5))"
    by (simp only: n5)
  have "g (?col 4) ! i = ?col 4 ! i"
    using i ti l4 v4 by (intro kg) simp_all
  then have a4: "g (?col 4) ! i \<noteq> None"
    using i ti l4 v4 by simp
  have "g (?col 5) ! i = ?col 5 ! i"
    using i ti l5 v5 by (intro kg) simp_all
  then have a5: "g (?col 5) ! i \<noteq> None"
    using i ti l5 v5 by simp
  have "sub_object (g (?col 5)) (g (?col 4)) = Inl TypeError"
    using a5 a4 i by (intro sub_object_raises [of i]) (simp_all add: lg)
  with h4 h5 show ?thesis
    by (simp add: derive_channel_7_object_def)
qed

text \<open>
  C9, as the code has it. \<open>read_csv\<close> checks neither the header nor the fields.
  \<^item> When the header lacks \<open>time\<close>, \<open>channel\<close> or \<open>value\<close>, the pivot raises a
    KeyError, no table is produced and the run ends after the call of the loader,
    whatever the types of the columns.
  \<^item> Nothing checks that a \<open>time\<close> field is a number: whatever the type of the time
    column (the statement holds for every ordered type of labels, text among them), a
    frame with the three headers and no repeated time and channel is reshaped into a
    table.
  \<^item> A \<open>value\<close> field that is not a number makes the value column text. The loader and
    the pivot accept it; when some time has a value of channel 4 and a value of channel 5
    the function raises a TypeError (in \<open>interpolate\<close>, or else in the subtraction of
    line 32) and returns no table.
\<close>

theorem malformed_input:
  fixes ofs :: "('u::linorder, string) files"
  assumes "fs file_path = Some df"
  shows "(''time'' \<notin> set (columns df) \<or> ''channel'' \<notin> set (columns df)
            \<or> ''value'' \<notin> set (columns df) \<longrightarrow>
          load_and_process_data fs file_path fill_missing fill_method = Inl KeyError
          \<and> run fs file_path fill_missing fill_method = ([Load file_path], Some KeyError))
       \<and> (''time'' \<in> set (columns df) \<and> ''channel'' \<in> set (columns df)
            \<and> ''value'' \<in> set (columns df)
            \<and> distinct (map (\<lambda>r. (time r, channel r)) (rows df)) \<longrightarrow>
          (\<exists>tb. reshape fs file_path fill_missing fill_method = Inr tb))
       \<and> (ofs file_path = Some odf
            \<and> (''time'' \<notin> set (columns odf) \<or> ''channel'' \<notin> set (columns odf)
                 \<or> ''value'' \<notin> set (columns odf)) \<longrightarrow>
          load_and_process_data_object ofs file_path fill_missing fill_method = Inl KeyError)
       \<and> (ofs file_path = Some odf
            \<and> ''time'' \<in> set (columns odf) \<and> ''channel'' \<in> set (columns odf)
            \<and> ''value'' \<in> set (columns odf)
            \<and> distinct (map (\<lambda>r. (time r, channel r)) (rows odf))
            \<and> (\<exists>r4 \<in> set (rows odf). \<exists>r5 \<in> set (rows odf).
                  time r4 = time r5 \<and> channel r4 = 4 \<and> channel r5 = 5
                  \<and> val r4 \<noteq> None \<and> val r5 \<noteq> None) \<longrightarrow>
          load_and_process_data_object ofs file_path fill_missing fill_method = Inl TypeError)"
proof -
  have a: "''time'' \<notin> set (columns df) \<or> ''channel'' \<notin> set (columns df)
            \<or> ''value'' \<notin> set (columns df) \<longrightarrow>
          load_and_process_data fs file_path fill_missing fill_method = Inl KeyError
          \<and> run fs file_path fill_missing fill_method = ([Load file_path], Some KeyError)"
  proof
    assume "''time'' \<notin> set (columns df) \<or> ''channel'' \<notin> set (columns df)
            \<or> ''value'' \<notin> set (columns df)"
    then have "pivot df = Inl KeyError"
      by (rule pivot_KeyError)
    then have "load_and_process_data fs file_path fill_missing fill_method = Inl KeyError"
      by (simp add: load_and_process_data_def reshape_def read_csv_def assms)
    then show "load_and_process_data fs file_path fill_missing fill_method = Inl KeyError
          \<and> run fs file_path fill_missing fill_method = ([Load file_path], Some KeyError)"
      by (simp add: run_def)
  qed
  have b: "''time'' \<in> set (columns df) \<and> ''channel'' \<in> set (columns df)
            \<and> ''value'' \<in> set (columns df)
            \<and> distinct (map (\<lambda>r. (time r, channel r)) (rows df)) \<longrightarrow>
          (\<exists>tb. reshape fs file_path fill_missing fill_method = Inr tb)"
  proof
    assume "''time'' \<in> set (columns df) \<and> ''channel'' \<in> set (columns df)
            \<and> ''value'' \<in> set (columns df)
            \<and> distinct (map (\<lambda>r. (time r, channel r)) (rows df))"
    then obtain tb where "pivot df = Inr tb"
      using pivot_ok by blast
    then show "\<exists>tb. reshape fs file_path fill_missing fill_method = Inr tb"
      by (simp add: reshape_def read_csv_def assms)
  qed
  have c: "ofs file_path = Some odf
            \<and> (''time'' \<notin> set (columns odf) \<or> ''channel'' \<notin> set (columns odf)
                 \<or> ''value'' \<notin> set (columns odf)) \<longrightarrow>
          load_and_process_data_object ofs file_path fill_missing fill_method = Inl KeyError"
  proof
    assume o: "ofs file_path = Some odf
            \<and> (''time'' \<notin> set (columns odf) \<or> ''channel'' \<notin> set (columns odf)
                 \<or> ''value'' \<notin> set (columns odf))"
    then have "pivot odf = Inl KeyError"
      by (intro pivot_KeyError) simp
    with o show "load_and_process_data_object ofs file_path fill_missing fill_method = Inl KeyError"
      by (simp add: load_and_process_data_object_def read_csv_def)
  qed
  have d: "ofs file_path = Some odf
            \<and> ''time'' \<in> set (columns odf) \<and> ''channel'' \<in> set (columns odf)
            \<and> ''value'' \<in> set (columns odf)
            \<and> distinct (map (\<lambda>r. (time r, channel r)) (rows odf))
            \<and> (\<exists>r4 \<in> set (rows odf). \<exists>r5 \<in> set (rows odf).
                  time r4 = time r5 \<and> channel r4 = 4 \<and> channel r5 = 5
                  \<and> val r4 \<noteq> None \<and> val r5 \<noteq> None) \<longrightarrow>
          load_and_process_data_object ofs file_path fill_missing fill_method = Inl TypeError"
  proof
    assume h: "ofs file_path = Some odf
            \<and> ''time'' \<in> set (columns odf) \<and> ''channel'' \<in> set (columns odf)
            \<and> ''value'' \<in> set (columns odf)
            \<and> distinct (map (\<lambda>r. (time r, channel r)) (rows odf))
            \<and> (\<exists>r4 \<in> set (rows odf). \<exists>r5 \<in> set (rows odf).
                  time r4 = time r5 \<and> channel r4 = 4 \<and> channel r5 = 5
                  \<and> val r4 \<noteq> None \<and> val r5 \<noteq> None)"
    then obtain tb0 where p: "pivot odf = Inr tb0"
      using pivot_ok by blast
    from h obtain r4 r5 where r: "r4 \<in> set (rows odf)" "r5 \<in> set (rows odf)"
      "time r4 = time r5" "channel r4 = 4" "channel r5 = 5" "val r4 \<noteq> None" "val r5 \<noteq> None"
      by blast
    show "load_and_process_data_object ofs file_path fill_missing fill_method = Inl TypeError"
    proof (cases "fill_missing_values_object fill_missing fill_method tb0")
      case (Inl e)
      then have "e = TypeError"
        by (auto simp: fill_missing_values_object_def split: if_splits)
      with Inl p h show ?thesis
        by (simp add: load_and_process_data_object_def read_csv_def)
    next
      case (Inr tb1)
      with p have "derive_channel_7_object (rename_columns tb1) = Inl TypeError"
        using r by (intro text_difference_raises [of odf tb0 fill_missing fill_method tb1 r4 r5])
      with Inr p h show ?thesis
        by (simp add: load_and_process_data_object_def read_csv_def)
    qed
  qed
  from a b c d show ?thesis
    by (intro conjI)
qed

theorem malformed_input_witness:
  "no_value_header ''data.txt'' =
       Some \<lparr>columns = [''time'', ''channel'', ''reading''],
             rows = [\<lparr>time = 0, channel = 4, val = Some 1\<rparr>,
                     \<lparr>time = 0, channel = 5, val = Some 3\<rparr>]\<rparr>
   \<and> ''value'' \<notin> set [''time'', ''channel'', ''reading'']
   \<and> load_and_process_data no_value_header ''data.txt'' False ''interpolate'' = Inl KeyError
   \<and> run no_value_header ''data.txt'' False ''interpolate'' = ([Load ''data.txt''], Some KeyError)
   \<and> (\<exists>tb. reshape text_time_files ''data.txt'' False ''interpolate'' = Inr tb)
   \<and> text_difference_files ''data.txt'' =
       Some \<lparr>columns = [''time'', ''channel'', ''value''],
             rows = [\<lparr>time = 0, channel = 4, val = Some ''1.0''\<rparr>,
                     \<lparr>time = 0, channel = 5, val = Some ''abc''\<rparr>]\<rparr>
   \<and> load_and_process_data_object text_difference_files ''data.txt'' False ''interpolate''
       = Inl TypeError"
proof -
  let ?df = "\<lparr>columns = [''time'', ''channel'', ''reading''],
             rows = [\<lparr>time = 0::rat, channel = 4, val = Some (1::rat)\<rparr>,
                     \<lparr>time = 0, channel = 5, val = Some 3\<rparr>]\<rparr>"
  let ?tf = "\<lparr>columns = [''time'', ''channel'', ''value''],
                 rows = [\<lparr>time = ''abc'', channel = 4, val = Some (1::rat)\<rparr>,
                         \<lparr>time = ''abc'', channel = 5, val = Some 3\<rparr>]\<rparr>"
  let ?r4 = "\<lparr>time = 0::rat, channel = 4, val = Some ''1.0''\<rparr>"
  let ?r5 = "\<lparr>time = 0::rat, channel = 5, val = Some ''abc''\<rparr>"
  let ?of = "\<lparr>columns = [''time'', ''channel'', ''value''], rows = [?r4, ?r5]\<rparr>"
  have f: "no_value_header ''data.txt'' = Some ?df"
    by (simp add: no_value_header_def)
  have g: "text_time_files ''data.txt'' = Some ?tf"
    by (simp add: text_time_files_def)
  have h: "text_difference_files ''data.txt'' = Some ?of"
    by (simp add: text_difference_files_def)
  have "load_and_process_data no_value_header ''data.txt'' False ''interpolate'' = Inl KeyError
      \<and> run no_value_header ''data.txt'' False ''interpolate'' = ([Load ''data.txt''], Some KeyError)"
    using malformed_input [where fs = no_value_header and file_path = "''data.txt''"
        and df = ?df and ofs = text_difference_files and odf = ?of and fill_missing = False
        and fill_method = "''interpolate''", OF f] h
    by simp
  moreover have "\<exists>tb. reshape text_time_files ''data.txt'' False ''interpolate'' = Inr tb"
    using malformed_input [where fs = text_time_files and file_path = "''data.txt''"
        and df = ?tf and ofs = text_difference_files and odf = ?of and fill_missing = False
        and fill_method = "''interpolate''", OF g]
    by simp
  moreover have "load_and_process_data_object text_difference_files ''data.txt'' False
      ''interpolate'' = Inl TypeError"
  proof -
    have "\<exists>r4 \<in> set (rows ?of). \<exists>r5 \<in> set (rows ?of).
            time r4 = time r5 \<and> channel r4 = 4 \<and> channel r5 = 5
            \<and> val r4 \<noteq> None \<and> val r5 \<noteq> None"
      by simp
    then show ?thesis
      using malformed_input [where fs = no_value_header and file_path = "''data.txt''"
        and df = ?df and ofs = text_difference_files and odf = ?of and fill_missing = False
        and fill_method = "''interpolate''", OF f] h
      by simp
  qed
  ultimately show ?thesis
    using f h by simp
qed

text \<open>
  C9, as the claim states it, fails for both kinds of field. A log whose \<open>time\<close> fields
  read \<open>abc\<close> is loaded without an error, and the table is indexed by the text. And a
  log with the value \<open>abc\<close> for channel 3 and empty values for channels 4 and 5 is loaded
  without an error: the table holds the text.
\<close>

theorem unparsed_field_counterexample:
  "load_and_process_data text_time_files ''data.txt'' False ''interpolate'' =
     Inr \<lparr>index = [''abc''],
          cols = [(''Channel_4'', [Some 1]), (''Channel_5'', [Some 3]),
                  (''Channel_7'', [Some 2])]\<rparr>
   \<and> load_and_process_data_object text_value_files ''data.txt'' False ''interpolate'' =
     Inr \<lparr>index = [0],
          cols = [(''Channel_3'', [Some ''abc'']), (''Channel_4'', [None]),
                  (''Channel_5'', [None]), (''Channel_7'', [None])]\<rparr>"
  by code_simp

end
